theory Spec2Isabelle
  imports Complex_Main "HOL-Library.Char_ord" "HOL-Library.List_Lexorder"
begin

section \<open>Finance tracker (DailyExpenses.py): data model\<close>

text \<open>
  The three sheets are read with \<^verbatim>\<open>get_all_records\<close> into data frames whose rows keep
  the order in which they were appended. A data frame is a list of rows, a row is a
  record with one field per column. Amounts are Python floats; they are modelled as
  real numbers, so rounding is not part of the model.
\<close>

record date =
  year :: nat
  month :: nat
  day :: nat

record expense_row =
  exp_Date :: date
  exp_Category :: string
  exp_Description :: string
  exp_Amount :: real

record income_row =
  inc_Month_Year :: string
  inc_Amount :: real
  inc_Source :: string
  inc_Date_Added :: string

record budget_row =
  bud_Month_Year :: string
  bud_Category :: string
  bud_Planned_Amount :: real
  bud_Date_Added :: string

section \<open>Income of a period\<close>

text \<open>
  Dashboard (\<^verbatim>\<open>curr_sal\<close>) and Budget Planner (\<^verbatim>\<open>current_salary\<close>) run the same
  code on a period key:
  \<^verbatim>\<open>
  curr_sal = 0.0
  if not df_inc.empty:
      m = df_inc[df_inc["Month_Year"] == curr_month_str]
      if not m.empty: curr_sal = float(m.iloc[-1]["Amount"])
  \<close>
\<close>

definition curr_sal :: "income_row list \<Rightarrow> string \<Rightarrow> real" where
  "curr_sal df_inc period =
     (if df_inc = [] then 0
      else let m = filter (\<lambda>r. inc_Month_Year r = period) df_inc
           in if m = [] then 0 else inc_Amount (last m))"

section \<open>Calendar and period keys\<close>

text \<open>
  \<^verbatim>\<open>calendar.monthrange(year, month)[1]\<close>: the number of days of a month; the library
  raises \<^verbatim>\<open>IllegalMonthError\<close> outside 1..12, which is \<open>None\<close> here.
\<close>

definition isleap :: "nat \<Rightarrow> bool" where
  "isleap y = (y mod 4 = 0 \<and> (y mod 100 \<noteq> 0 \<or> y mod 400 = 0))"

definition mdays :: "nat list" where
  "mdays = [0, 31, 28, 31, 30, 31, 30, 31, 31, 30, 31, 30, 31]"

definition monthrange_days :: "nat \<Rightarrow> nat \<Rightarrow> nat option" where
  "monthrange_days y m =
     (if 1 \<le> m \<and> m \<le> 12
      then Some (mdays ! m + (if m = 2 \<and> isleap y then 1 else 0))
      else None)"

text \<open>
  A value of \<^verbatim>\<open>datetime\<close> always denotes a day of the calendar, with a year between
  \<^verbatim>\<open>MINYEAR = 1\<close> and \<^verbatim>\<open>MAXYEAR = 9999\<close>.
\<close>

definition valid_date :: "date \<Rightarrow> bool" where
  "valid_date d =
     (1 \<le> year d \<and> year d \<le> 9999 \<and>
      (case monthrange_days (year d) (month d) of
         None \<Rightarrow> False
       | Some n \<Rightarrow> 1 \<le> day d \<and> day d \<le> n))"

text \<open>
  \<^verbatim>\<open>d - timedelta(days=1)\<close>: the day before; \<^verbatim>\<open>OverflowError\<close> before
  0001-01-01 is \<open>None\<close>.
\<close>

definition minus_one_day :: "date \<Rightarrow> date option" where
  "minus_one_day d =
     (if 1 < day d then Some (d\<lparr>day := day d - 1\<rparr>)
      else if 1 < month d then
        (case monthrange_days (year d) (month d - 1) of
           None \<Rightarrow> None
         | Some n \<Rightarrow> Some (d\<lparr>month := month d - 1, day := n\<rparr>))
      else if 1 < year d then Some (d\<lparr>year := year d - 1, month := 12, day := 31\<rparr>)
      else None)"

text \<open>
  Formatting: \<^verbatim>\<open>str(n)\<close> of a non-negative integer, zero padding to a width
  (\<^verbatim>\<open>:02d\<close>, and the \<^verbatim>\<open>%Y\<close>, \<^verbatim>\<open>%m\<close>, \<^verbatim>\<open>%d\<close> fields of \<^verbatim>\<open>strftime\<close>).
\<close>

definition digit_char :: "nat \<Rightarrow> char" where
  "digit_char d = ''0123456789'' ! d"

fun str_nat :: "nat \<Rightarrow> string" where
  "str_nat n =
     (if n < 10 then [digit_char n] else str_nat (n div 10) @ [digit_char (n mod 10)])"

declare str_nat.simps [simp del]

definition zfill :: "nat \<Rightarrow> string \<Rightarrow> string" where
  "zfill w s = replicate (w - length s) CHR ''0'' @ s"

definition strftime_Y_m :: "date \<Rightarrow> string" where
  "strftime_Y_m d = zfill 4 (str_nat (year d)) @ ''-'' @ zfill 2 (str_nat (month d))"

definition strftime_Y_m_d :: "date \<Rightarrow> string" where
  "strftime_Y_m_d d = strftime_Y_m d @ ''-'' @ zfill 2 (str_nat (day d))"

text \<open>
  Section 5 of the script:
  \<^verbatim>\<open>
  curr_month_str = today.strftime("%Y-%m")
  if today.month == 12:
      next_month_str = f"{today.year + 1}-01"
  else:
      next_month_str = f"{today.year}-{today.month + 1:02d}"
  if today.day >= 25:
      target_plan_month = next_month_str
  else:
      target_plan_month = curr_month_str
  \<close>
\<close>

definition curr_month_str :: "date \<Rightarrow> string" where
  "curr_month_str today = strftime_Y_m today"

definition next_month_str :: "date \<Rightarrow> string" where
  "next_month_str today =
     (if month today = 12 then str_nat (year today + 1) @ ''-01''
      else str_nat (year today) @ ''-'' @ zfill 2 (str_nat (month today + 1)))"

definition target_plan_month :: "date \<Rightarrow> string" where
  "target_plan_month today =
     (if day today \<ge> 25 then next_month_str today else curr_month_str today)"

text \<open>
  The key format \<^verbatim>\<open>YYYY-MM\<close> of the data model, as a reader of keys, against which the
  strings built above are checked: exactly four decimal digits of the year, a \<^verbatim>\<open>-\<close>,
  and exactly two digits of the month, between 01 and 12. No other string is a key.
\<close>

definition digit_val :: "char \<Rightarrow> nat option" where
  "digit_val c =
     (if CHR ''0'' \<le> c \<and> c \<le> CHR ''9'' then Some (of_char c - 48) else None)"

fun nat_of_digits :: "nat \<Rightarrow> string \<Rightarrow> nat option" where
  "nat_of_digits acc [] = Some acc"
| "nat_of_digits acc (c # cs) =
     (case digit_val c of
        None \<Rightarrow> None
      | Some v \<Rightarrow> nat_of_digits (acc * 10 + v) cs)"

definition period_of_key :: "string \<Rightarrow> (nat \<times> nat) option" where
  "period_of_key s =
     (let ys = takeWhile (\<lambda>c. c \<noteq> CHR ''-'') s;
          rest = dropWhile (\<lambda>c. c \<noteq> CHR ''-'') s
      in if length ys \<noteq> 4 \<or> length rest \<noteq> 3 then None
         else (case (nat_of_digits 0 ys, nat_of_digits 0 (tl rest)) of
                 (Some y, Some m) \<Rightarrow> if 1 \<le> m \<and> m \<le> 12 then Some (y, m) else None
               | _ \<Rightarrow> None))"

section \<open>Income reminder\<close>

text \<open>
  \<^verbatim>\<open>
  income_exists = False
  if not df_inc.empty:
      match = df_inc[df_inc["Month_Year"] == target_plan_month]
      if not match.empty:
          income_exists = True
  if not income_exists and not st.session_state.get('skip_prompt', False):
      ... the prompt ...
  \<close>
  The session state is a dictionary, given by its items; the prompt's Skip button
  stores \<^verbatim>\<open>True\<close> under \<^verbatim>\<open>skip_prompt\<close>.
\<close>

definition income_exists :: "income_row list \<Rightarrow> string \<Rightarrow> bool" where
  "income_exists df_inc target =
     (if df_inc \<noteq> [] then
        (let match = filter (\<lambda>r. inc_Month_Year r = target) df_inc
         in if match \<noteq> [] then True else False)
      else False)"

definition session_get :: "(string \<times> bool) list \<Rightarrow> string \<Rightarrow> bool \<Rightarrow> bool" where
  "session_get session_state k dflt =
     (case map_of session_state k of None \<Rightarrow> dflt | Some v \<Rightarrow> v)"

definition show_prompt :: "income_row list \<Rightarrow> string \<Rightarrow> (string \<times> bool) list \<Rightarrow> bool" where
  "show_prompt df_inc target session_state =
     (\<not> income_exists df_inc target \<and> \<not> session_get session_state ''skip_prompt'' False)"

section \<open>Loading the Expenses sheet\<close>

text \<open>
  \<^verbatim>\<open>
  df_exp = pd.DataFrame(sheet_exp.get_all_records())
  if not df_exp.empty:
      df_exp["Date"] = pd.to_datetime(df_exp["Date"], errors="coerce")
      df_exp["Amount"] = pd.to_numeric(df_exp["Amount"], errors="coerce").fillna(0.0)
      df_exp = df_exp.dropna(subset=["Date"])
  \<close>
  The parsers are pandas' own. A cell of the sheet is modelled by what the parser makes
  of it: a value, or text that does not parse. With \<^verbatim>\<open>errors="coerce"\<close> the parser
  does not raise: it yields the missing value (\<^verbatim>\<open>NaT\<close>, \<^verbatim>\<open>NaN\<close>), which is
  \<open>None\<close> here.
\<close>

datatype 'a cell = Parses 'a | Unparseable string

record raw_expense_row =
  raw_Date :: "date cell"
  raw_Category :: string
  raw_Description :: string
  raw_Amount :: "real cell"

fun coerce :: "'a cell \<Rightarrow> 'a option" where
  "coerce (Parses v) = Some v"
| "coerce (Unparseable s) = None"

definition fillna :: "real \<Rightarrow> real option \<Rightarrow> real" where
  "fillna v x = (case x of None \<Rightarrow> v | Some a \<Rightarrow> a)"

text \<open>The frame between the steps: the date column may hold \<^verbatim>\<open>NaT\<close>.\<close>

record coerced_expense_row =
  co_Date :: "date option"
  co_Category :: string
  co_Description :: string
  co_Amount :: real

definition to_datetime_to_numeric :: "raw_expense_row \<Rightarrow> coerced_expense_row" where
  "to_datetime_to_numeric r =
     \<lparr>co_Date = coerce (raw_Date r), co_Category = raw_Category r,
      co_Description = raw_Description r, co_Amount = fillna 0 (coerce (raw_Amount r))\<rparr>"

fun dropna_Date :: "coerced_expense_row list \<Rightarrow> expense_row list" where
  "dropna_Date [] = []"
| "dropna_Date (r # rs) =
     (case co_Date r of
        None \<Rightarrow> dropna_Date rs
      | Some d \<Rightarrow> \<lparr>exp_Date = d, exp_Category = co_Category r,
                   exp_Description = co_Description r, exp_Amount = co_Amount r\<rparr>
                 # dropna_Date rs)"

definition load_df_exp :: "raw_expense_row list \<Rightarrow> expense_row list" where
  "load_df_exp records =
     (if records \<noteq> [] then dropna_Date (map to_datetime_to_numeric records) else [])"

section \<open>Dashboard\<close>

text \<open>
  \<^verbatim>\<open>df.groupby("Category")[col].sum().reset_index()\<close>: one row per category, the
  categories in sorted order, with the sum of the column over the rows of that category.
  The frame is given as its (category, value) pairs.
\<close>

definition groupby_sum :: "(string \<times> real) list \<Rightarrow> (string \<times> real) list" where
  "groupby_sum kvs =
     map (\<lambda>k. (k, sum_list (map snd (filter (\<lambda>kv. fst kv = k) kvs))))
       (sort (remdups (map fst kvs)))"

text \<open>
  \<^verbatim>\<open>
  dash_df = df_exp[(df_exp["Date"].dt.month == today.month)
                   & (df_exp["Date"].dt.year == today.year)]
  curr_plan = pd.DataFrame()
  if not df_cat_bud.empty:
      raw_plan = df_cat_bud[df_cat_bud["Month_Year"] == curr_month_str]
      curr_plan = raw_plan.groupby("Category")["Planned_Amount"].sum().reset_index()
  total_spent = dash_df["Amount"].sum()
  total_planned = curr_plan["Planned_Amount"].sum() if not curr_plan.empty else 0
  days_passed = today.day
  days_in_month = calendar.monthrange(today.year, today.month)[1]
  projected = (total_spent / days_passed) * days_in_month if days_passed > 0 else 0
  actual_grp = dash_df.groupby("Category")["Amount"].sum().reset_index()
  \<close>
\<close>

definition dash_df :: "expense_row list \<Rightarrow> date \<Rightarrow> expense_row list" where
  "dash_df df_exp today =
     filter (\<lambda>r. month (exp_Date r) = month today \<and> year (exp_Date r) = year today) df_exp"

definition curr_plan :: "budget_row list \<Rightarrow> string \<Rightarrow> (string \<times> real) list" where
  "curr_plan df_cat_bud period =
     (if df_cat_bud \<noteq> [] then
        (let raw_plan = filter (\<lambda>r. bud_Month_Year r = period) df_cat_bud
         in groupby_sum (map (\<lambda>r. (bud_Category r, bud_Planned_Amount r)) raw_plan))
      else [])"

definition total_spent :: "expense_row list \<Rightarrow> real" where
  "total_spent df = sum_list (map exp_Amount df)"

definition total_planned :: "(string \<times> real) list \<Rightarrow> real" where
  "total_planned plan = (if plan \<noteq> [] then sum_list (map snd plan) else 0)"

text \<open>
  Division is the one step of the projection that can go wrong: by zero, a Python float
  raises \<^verbatim>\<open>ZeroDivisionError\<close> and a numpy float yields \<^verbatim>\<open>inf\<close> or \<^verbatim>\<open>nan\<close>.
  Either way there is no amount; that outcome is \<open>Inl ZeroDivision\<close>.
\<close>

datatype arith_error = ZeroDivision

definition truediv :: "real \<Rightarrow> int \<Rightarrow> arith_error + real" where
  "truediv x d = (if d = 0 then Inl ZeroDivision else Inr (x / real_of_int d))"

definition projected :: "real \<Rightarrow> int \<Rightarrow> int \<Rightarrow> arith_error + real" where
  "projected spent days_passed days_in_month =
     (if days_passed > 0 then
        (case truediv spent days_passed of
           Inl e \<Rightarrow> Inl e
         | Inr q \<Rightarrow> Inr (q * real_of_int days_in_month))
      else Inr 0)"

definition dashboard_projected ::
  "expense_row list \<Rightarrow> date \<Rightarrow> (arith_error + real) option" where
  "dashboard_projected df_exp today =
     (case monthrange_days (year today) (month today) of
        None \<Rightarrow> None
      | Some days_in_month \<Rightarrow>
          Some (projected (total_spent (dash_df df_exp today)) (int (day today))
                  (int days_in_month)))"

definition actual_grp :: "expense_row list \<Rightarrow> (string \<times> real) list" where
  "actual_grp df = groupby_sum (map (\<lambda>r. (exp_Category r, exp_Amount r)) df)"

text \<open>
  Plan against reality:
  \<^verbatim>\<open>
  if not curr_plan.empty:
      merged = pd.merge(curr_plan, actual_grp, on="Category", how="outer").fillna(0)
      merged.columns = ["Category", "Planned", "Actual"]
  else:
      merged = actual_grp.rename(columns={"Amount": "Actual"})
      merged["Planned"] = 0
  merged["Is_Over_Budget"] = merged["Actual"] > merged["Planned"]
  \<close>
  \<^verbatim>\<open>pd.merge(..., how="outer")\<close> pairs every left row with every right row of the same
  key, keeps a left row without partner with a missing right value, and a right row
  without partner with a missing left value; the result is ordered by key.
\<close>

definition merge_outer ::
  "(string \<times> real) list \<Rightarrow> (string \<times> real) list \<Rightarrow> (string \<times> real option \<times> real option) list"
where
  "merge_outer left right =
     sort_key fst
       (concat (map (\<lambda>(k, p).
            (case filter (\<lambda>kv. fst kv = k) right of
               [] \<Rightarrow> [(k, Some p, None)]
             | ms \<Rightarrow> map (\<lambda>(k', a). (k, Some p, Some a)) ms)) left)
        @ map (\<lambda>(k, a). (k, None, Some a))
            (filter (\<lambda>kv. fst kv \<notin> set (map fst left)) right))"

record merged_row =
  mg_Category :: string
  mg_Planned :: real
  mg_Actual :: real
  mg_Is_Over_Budget :: bool

definition over_budget_flag :: "string \<times> real \<times> real \<Rightarrow> merged_row" where
  "over_budget_flag r =
     (case r of (c, p, a) \<Rightarrow>
        \<lparr>mg_Category = c, mg_Planned = p, mg_Actual = a, mg_Is_Over_Budget = (a > p)\<rparr>)"

definition merged :: "(string \<times> real) list \<Rightarrow> (string \<times> real) list \<Rightarrow> merged_row list" where
  "merged plan actual =
     map over_budget_flag
       (if plan \<noteq> [] then
          map (\<lambda>(c, p, a). (c, fillna 0 p, fillna 0 a)) (merge_outer plan actual)
        else map (\<lambda>(c, a). (c, 0, a)) actual)"

section \<open>Analysis: this month against last month\<close>

text \<open>
  \<^verbatim>\<open>
  first_day_curr = today.replace(day=1)
  last_month_date = first_day_curr - timedelta(days=1)
  prev_month_idx = last_month_date.month
  curr_df = df_exp[(df_exp["Date"].dt.month == today.month)
                   & (df_exp["Date"].dt.year == today.year)]
  prev_df = df_exp[(df_exp["Date"].dt.month == prev_month_idx)]
  c_total = curr_df["Amount"].sum()
  p_total = prev_df["Amount"].sum()
  p_cat = prev_df.groupby("Category")["Amount"].sum().reset_index()
  \<close>
\<close>

definition last_month_date :: "date \<Rightarrow> date option" where
  "last_month_date today = (let first_day_curr = today\<lparr>day := 1\<rparr> in minus_one_day first_day_curr)"

definition prev_month_idx :: "date \<Rightarrow> nat option" where
  "prev_month_idx today = map_option month (last_month_date today)"

definition curr_df :: "expense_row list \<Rightarrow> date \<Rightarrow> expense_row list" where
  "curr_df df_exp today =
     filter (\<lambda>r. month (exp_Date r) = month today \<and> year (exp_Date r) = year today) df_exp"

definition prev_df :: "expense_row list \<Rightarrow> date \<Rightarrow> expense_row list option" where
  "prev_df df_exp today =
     (case prev_month_idx today of
        None \<Rightarrow> None
      | Some idx \<Rightarrow> Some (filter (\<lambda>r. month (exp_Date r) = idx) df_exp))"

definition c_total :: "expense_row list \<Rightarrow> date \<Rightarrow> real" where
  "c_total df_exp today = total_spent (curr_df df_exp today)"

definition p_total :: "expense_row list \<Rightarrow> date \<Rightarrow> real option" where
  "p_total df_exp today = map_option total_spent (prev_df df_exp today)"

definition p_cat :: "expense_row list \<Rightarrow> date \<Rightarrow> (string \<times> real) list option" where
  "p_cat df_exp today = map_option actual_grp (prev_df df_exp today)"

section \<open>Budget Planner\<close>

text \<open>
  \<^verbatim>\<open>new_salary = st.number_input("Amount", value=current_salary, step=1000.0)\<close>:
  the widget returns what the form holds, and \<^verbatim>\<open>value\<close> while the user has entered
  nothing.
\<close>

definition number_input :: "real option \<Rightarrow> real \<Rightarrow> real" where
  "number_input entered dflt = (case entered of None \<Rightarrow> dflt | Some v \<Rightarrow> v)"

definition new_salary :: "income_row list \<Rightarrow> string \<Rightarrow> real option \<Rightarrow> real" where
  "new_salary df_inc plan_month_opt entered =
     (let current_salary = curr_sal df_inc plan_month_opt
      in number_input entered current_salary)"

text \<open>
  \<^verbatim>\<open>
  plan_df = pd.DataFrame()
  if not df_cat_bud.empty:
      plan_df = df_cat_bud[df_cat_bud["Month_Year"] == plan_month_opt]
  total_alloc = 0.0
  if not plan_df.empty:
      display_df = plan_df.groupby("Category")["Planned_Amount"].sum().reset_index()
      total_alloc = display_df["Planned_Amount"].sum()
      balance = new_salary - total_alloc
  \<close>
  The balance is shown only when the month has allocations (\<open>None\<close> otherwise).
\<close>

definition plan_df :: "budget_row list \<Rightarrow> string \<Rightarrow> budget_row list" where
  "plan_df df_cat_bud plan_month_opt =
     (if df_cat_bud \<noteq> [] then filter (\<lambda>r. bud_Month_Year r = plan_month_opt) df_cat_bud
      else [])"

definition display_df :: "budget_row list \<Rightarrow> (string \<times> real) list" where
  "display_df pdf = groupby_sum (map (\<lambda>r. (bud_Category r, bud_Planned_Amount r)) pdf)"

definition total_alloc :: "budget_row list \<Rightarrow> string \<Rightarrow> real" where
  "total_alloc df_cat_bud plan_month_opt =
     (let pdf = plan_df df_cat_bud plan_month_opt
      in if pdf \<noteq> [] then sum_list (map snd (display_df pdf)) else 0)"

definition balance ::
  "income_row list \<Rightarrow> budget_row list \<Rightarrow> string \<Rightarrow> real option \<Rightarrow> real option" where
  "balance df_inc df_cat_bud plan_month_opt entered =
     (if plan_df df_cat_bud plan_month_opt \<noteq> []
      then Some (new_salary df_inc plan_month_opt entered
                 - total_alloc df_cat_bud plan_month_opt)
      else None)"

text \<open>
  The Add Allocation form; the sheet is the list of its rows, and the result tells
  whether the script reruns:
  \<^verbatim>\<open>
  amt_input = st.number_input("Limit", min_value=0.0, step=100.0)
  if st.form_submit_button("Add Allocation"):
      if amt_input > 0:
          sheet_cat_bud.append_row([plan_month_opt, cat_input, amt_input,
                                    today.strftime("%Y-%m-%d")])
          st.rerun()
  \<close>
\<close>

definition add_cat_budget ::
  "bool \<Rightarrow> string \<Rightarrow> string \<Rightarrow> real \<Rightarrow> date \<Rightarrow> budget_row list \<Rightarrow> budget_row list \<times> bool"
where
  "add_cat_budget submitted plan_month_opt cat_input amt_input today sheet_cat_bud =
     (if submitted then
        (if amt_input > 0 then
           (sheet_cat_bud @
              [\<lparr>bud_Month_Year = plan_month_opt, bud_Category = cat_input,
                bud_Planned_Amount = amt_input, bud_Date_Added = strftime_Y_m_d today\<rparr>],
            True)
         else (sheet_cat_bud, False))
      else (sheet_cat_bud, False))"

section \<open>Theorems\<close>

subsection \<open>Income: the last matching row wins\<close>

lemma filter_last_match:
  assumes "P r" and "\<forall>x\<in>set post. \<not> P x"
  shows "filter P (pre @ r # post) = filter P pre @ [r]"
proof -
  have "filter P post = []"
    using assms(2) by (induction post) auto
  with assms(1) show ?thesis by simp
qed

lemma curr_sal_none:
  assumes "\<forall>r\<in>set df_inc. inc_Month_Year r \<noteq> period"
  shows "curr_sal df_inc period = 0"
proof -
  have "filter (\<lambda>r. inc_Month_Year r = period) df_inc = []"
    using assms by (induction df_inc) auto
  then show ?thesis by (simp add: curr_sal_def)
qed

lemma curr_sal_last:
  assumes "inc_Month_Year r = period"
    and "\<forall>x\<in>set post. inc_Month_Year x \<noteq> period"
  shows "curr_sal (pre @ r # post) period = inc_Amount r"
proof -
  have "filter (\<lambda>r. inc_Month_Year r = period) (pre @ r # post)
        = filter (\<lambda>r. inc_Month_Year r = period) pre @ [r]"
    by (rule filter_last_match) (use assms in auto)
  then show ?thesis by (simp add: curr_sal_def Let_def)
qed

lemma last_match_exists:
  assumes "\<exists>r\<in>set df_inc. inc_Month_Year r = period"
  shows "\<exists>pre r post. df_inc = pre @ r # post \<and> inc_Month_Year r = period
           \<and> (\<forall>x\<in>set post. inc_Month_Year x \<noteq> period)"
proof -
  from assms obtain pre r post where
    "df_inc = pre @ r # post" "inc_Month_Year r = period"
    "\<forall>x\<in>set post. \<not> inc_Month_Year x = period"
    using split_list_last_prop [of df_inc "\<lambda>r. inc_Month_Year r = period"] by blast
  then show ?thesis by blast
qed

text \<open>
  Claim C1. For every period key and every snapshot of the Income sheet, the resolved
  income is 0 when no row has that period; when some row has it, the snapshot splits
  at the last such row (none after it has the period) and the result is that row's
  amount, whatever the rows before it hold. The rows (p,100),(p,50) appended in that
  order give 50.
\<close>

theorem resolve_income_last_write_wins:
  "((\<forall>r\<in>set df_inc. inc_Month_Year r \<noteq> period) \<longrightarrow> curr_sal df_inc period = 0)
   \<and> ((\<exists>r\<in>set df_inc. inc_Month_Year r = period) \<longrightarrow>
        (\<exists>pre r post. df_inc = pre @ r # post \<and> inc_Month_Year r = period
           \<and> (\<forall>x\<in>set post. inc_Month_Year x \<noteq> period)
           \<and> curr_sal df_inc period = inc_Amount r))
   \<and> (\<forall>pre r post. df_inc = pre @ r # post \<and> inc_Month_Year r = period
           \<and> (\<forall>x\<in>set post. inc_Month_Year x \<noteq> period)
         \<longrightarrow> curr_sal df_inc period = inc_Amount r)"
proof (intro conjI impI allI)
  assume "\<forall>r\<in>set df_inc. inc_Month_Year r \<noteq> period"
  then show "curr_sal df_inc period = 0" by (rule curr_sal_none)
next
  assume "\<exists>r\<in>set df_inc. inc_Month_Year r = period"
  then obtain pre r post where s: "df_inc = pre @ r # post" "inc_Month_Year r = period"
    "\<forall>x\<in>set post. inc_Month_Year x \<noteq> period"
    using last_match_exists by blast
  then have "curr_sal df_inc period = inc_Amount r"
    using curr_sal_last by blast
  with s show "\<exists>pre r post. df_inc = pre @ r # post \<and> inc_Month_Year r = period
           \<and> (\<forall>x\<in>set post. inc_Month_Year x \<noteq> period)
           \<and> curr_sal df_inc period = inc_Amount r"
    by blast
next
  fix pre r post
  assume "df_inc = pre @ r # post \<and> inc_Month_Year r = period
           \<and> (\<forall>x\<in>set post. inc_Month_Year x \<noteq> period)"
  then show "curr_sal df_inc period = inc_Amount r"
    using curr_sal_last by blast
qed

theorem resolve_income_last_write_wins_witness:
  "curr_sal
     [\<lparr>inc_Month_Year = ''2024-05'', inc_Amount = 100, inc_Source = ''Salary'',
        inc_Date_Added = ''2024-05-01''\<rparr>,
      \<lparr>inc_Month_Year = ''2024-05'', inc_Amount = 50, inc_Source = ''Salary'',
        inc_Date_Added = ''2024-05-01''\<rparr>] ''2024-05'' = 50
   \<and> curr_sal
     [\<lparr>inc_Month_Year = ''2024-05'', inc_Amount = 100, inc_Source = ''Salary'',
        inc_Date_Added = ''2024-05-01''\<rparr>] ''2024-06'' = 0"
proof -
  let ?a = "\<lparr>inc_Month_Year = ''2024-05'', inc_Amount = 100, inc_Source = ''Salary'',
        inc_Date_Added = ''2024-05-01''\<rparr>"
  let ?b = "\<lparr>inc_Month_Year = ''2024-05'', inc_Amount = 50, inc_Source = ''Salary'',
        inc_Date_Added = ''2024-05-01''\<rparr>"
  have "curr_sal [?a, ?b] ''2024-05'' = inc_Amount ?b"
    using resolve_income_last_write_wins [of "[?a, ?b]" "''2024-05''"]
    by (elim conjE allE [of _ "[?a]"] allE [of _ ?b] allE [of _ "[]"]) simp
  moreover have "curr_sal [?a] ''2024-06'' = 0"
    using resolve_income_last_write_wins [of "[?a]" "''2024-06''"] by simp
  ultimately show ?thesis by simp
qed

subsection \<open>Period keys\<close>

lemma digit_cases: "d < 10 \<Longrightarrow> d \<in> {0, 1, 2, 3, 4, 5, 6, 7, 8, 9::nat}"
  by auto

lemma digit_val_digit_char: "d < 10 \<Longrightarrow> digit_val (digit_char d) = Some d"
  using digit_cases [of d]
  by (auto simp: digit_val_def digit_char_def less_eq_char_def)

lemma digit_char_not_dash: "d < 10 \<Longrightarrow> digit_char d \<noteq> CHR ''-''"
  using digit_cases [of d] by (auto simp: digit_char_def)

lemma str_nat_small: "n < 10 \<Longrightarrow> str_nat n = [digit_char n]"
  by (subst str_nat.simps) simp

lemma str_nat_big: "10 \<le> n \<Longrightarrow> str_nat n = str_nat (n div 10) @ [digit_char (n mod 10)]"
  by (subst str_nat.simps) simp

lemma str_nat_no_dash: "c \<in> set (str_nat n) \<Longrightarrow> c \<noteq> CHR ''-''"
proof (induction n arbitrary: c rule: str_nat.induct)
  case (1 n)
  show ?case
  proof (cases "n < 10")
    case True
    with "1.prems" show ?thesis
      by (simp add: str_nat_small digit_char_not_dash)
  next
    case False
    with "1.prems" have "c \<in> set (str_nat (n div 10)) \<or> c = digit_char (n mod 10)"
      by (auto simp: str_nat_big)
    with False "1.IH" show ?thesis
      using digit_char_not_dash [of "n mod 10"] by auto
  qed
qed

lemma nat_of_digits_snoc:
  "nat_of_digits acc (xs @ [c]) =
     (case nat_of_digits acc xs of None \<Rightarrow> None
      | Some v \<Rightarrow> (case digit_val c of None \<Rightarrow> None | Some d \<Rightarrow> Some (v * 10 + d)))"
  by (induction xs arbitrary: acc) (auto split: option.splits)

lemma nat_of_digits_str_nat: "nat_of_digits 0 (str_nat n) = Some n"
proof (induction n rule: str_nat.induct)
  case (1 n)
  show ?case
  proof (cases "n < 10")
    case True
    then show ?thesis by (simp add: str_nat_small digit_val_digit_char)
  next
    case False
    with "1.IH" have "nat_of_digits 0 (str_nat (n div 10)) = Some (n div 10)" by simp
    with False show ?thesis
      by (simp add: str_nat_big nat_of_digits_snoc digit_val_digit_char)
  qed
qed

lemma nat_of_digits_zeros:
  "nat_of_digits 0 (replicate k CHR ''0'' @ s) = nat_of_digits 0 s"
  by (induction k) (auto simp: digit_val_def less_eq_char_def)

lemma nat_of_digits_zfill: "nat_of_digits 0 (zfill w (str_nat n)) = Some n"
  by (simp add: zfill_def nat_of_digits_zeros nat_of_digits_str_nat)

lemma length_str_nat_pos: "Suc 0 \<le> length (str_nat n)"
  by (cases "n < 10") (simp_all add: str_nat_small str_nat_big)

lemma length_str_nat_lt100: "n < 100 \<Longrightarrow> length (str_nat n) \<le> 2"
proof (cases "n < 10")
  case True
  then show ?thesis by (simp add: str_nat_small)
next
  case False
  assume "n < 100"
  then have "n div 10 < 10" by simp
  with False show ?thesis by (simp add: str_nat_big str_nat_small)
qed

lemma length_str_nat_ge1000: "1000 \<le> n \<Longrightarrow> 4 \<le> length (str_nat n)"
proof -
  assume n: "1000 \<le> n"
  then have "10 \<le> n" "10 \<le> n div 10" "10 \<le> n div 10 div 10" by simp_all
  then have "length (str_nat n) = length (str_nat (n div 10 div 10 div 10)) + 3"
    by (simp add: str_nat_big)
  then show ?thesis using length_str_nat_pos [of "n div 10 div 10 div 10"] by simp
qed

lemma length_str_nat_lt10000: "n < 10000 \<Longrightarrow> length (str_nat n) \<le> 4"
proof -
  assume n: "n < 10000"
  have step: "length (str_nat k) \<le> Suc (length (str_nat (k div 10)))" for k
    by (cases "k < 10") (simp_all add: str_nat_small str_nat_big)
  from n have "n div 10 div 10 div 10 < 10" by simp
  then have "length (str_nat (n div 10 div 10 div 10)) = 1"
    by (simp add: str_nat_small)
  with step [of n] step [of "n div 10"] step [of "n div 10 div 10"]
  show ?thesis by linarith
qed

lemma length_zfill2: "n < 100 \<Longrightarrow> length (zfill 2 (str_nat n)) = 2"
  using length_str_nat_lt100 [of n] by (simp add: zfill_def)

lemma zfill_no_dash: "c \<in> set (zfill w (str_nat n)) \<Longrightarrow> c \<noteq> CHR ''-''"
  using str_nat_no_dash by (auto simp: zfill_def)

lemma period_of_key_build:
  assumes "\<forall>c\<in>set ys. c \<noteq> CHR ''-''" and "length ys = 4" and "length ms = 2"
    and "nat_of_digits 0 ys = Some y" and "nat_of_digits 0 ms = Some m"
    and "1 \<le> m" and "m \<le> 12"
  shows "period_of_key (ys @ ''-'' @ ms) = Some (y, m)"
proof -
  have t: "takeWhile (\<lambda>c. c \<noteq> CHR ''-'') (ys @ ''-'' @ ms) = ys"
    using assms(1) by simp
  have d: "dropWhile (\<lambda>c. c \<noteq> CHR ''-'') (ys @ ''-'' @ ms) = ''-'' @ ms"
    using assms(1) by simp
  show ?thesis
    unfolding period_of_key_def t d using assms(2-) by (simp add: Let_def)
qed


lemma length_str_nat_year: "1000 \<le> n \<Longrightarrow> n \<le> 9999 \<Longrightarrow> length (str_nat n) = 4"
  using length_str_nat_ge1000 [of n] length_str_nat_lt10000 [of n] by simp

lemma curr_month_str_key:
  assumes "1000 \<le> year d" and "year d \<le> 9999" and "1 \<le> month d" and "month d \<le> 12"
  shows "period_of_key (curr_month_str d) = Some (year d, month d)"
proof -
  have l: "length (str_nat (year d)) = 4"
    using assms(1,2) by (rule length_str_nat_year)
  then have z: "zfill 4 (str_nat (year d)) = str_nat (year d)"
    by (simp add: zfill_def)
  have "period_of_key (str_nat (year d) @ ''-'' @ zfill 2 (str_nat (month d)))
        = Some (year d, month d)"
  proof (rule period_of_key_build)
    show "\<forall>c\<in>set (str_nat (year d)). c \<noteq> CHR ''-''"
      using str_nat_no_dash by blast
    show "length (str_nat (year d)) = 4" by (rule l)
    show "length (zfill 2 (str_nat (month d))) = 2"
      using assms(4) by (simp add: length_zfill2)
    show "nat_of_digits 0 (str_nat (year d)) = Some (year d)"
      by (rule nat_of_digits_str_nat)
    show "nat_of_digits 0 (zfill 2 (str_nat (month d))) = Some (month d)"
      by (rule nat_of_digits_zfill)
  qed (use assms in auto)
  then show ?thesis by (simp add: curr_month_str_def strftime_Y_m_def z)
qed

lemma length_curr_month_str:
  assumes "year d \<le> 9999" and "month d \<le> 12"
  shows "length (curr_month_str d) = 7"
proof -
  have "length (str_nat (year d)) \<le> 4"
    using assms(1) by (intro length_str_nat_lt10000) simp
  then have "length (zfill 4 (str_nat (year d))) = 4"
    by (simp add: zfill_def)
  moreover have "length (zfill 2 (str_nat (month d))) = 2"
    using assms(2) by (simp add: length_zfill2)
  ultimately show ?thesis by (simp add: curr_month_str_def strftime_Y_m_def)
qed

lemma next_month_str_key:
  assumes "1000 \<le> year d" and "year d \<le> 9999" and "1 \<le> month d" and "month d \<le> 12"
    and "\<not> (year d = 9999 \<and> month d = 12)"
  shows "period_of_key (next_month_str d)
         = Some (if month d = 12 then (year d + 1, 1) else (year d, month d + 1))"
proof (cases "month d = 12")
  case True
  with assms have y: "1000 \<le> year d + 1" "year d + 1 \<le> 9999" by simp_all
  have "period_of_key (str_nat (year d + 1) @ ''-'' @ ''01'') = Some (year d + 1, 1)"
  proof (rule period_of_key_build)
    show "\<forall>c\<in>set (str_nat (year d + 1)). c \<noteq> CHR ''-''"
      using str_nat_no_dash by blast
    show "length (str_nat (year d + 1)) = 4"
      using y by (rule length_str_nat_year)
    show "nat_of_digits 0 (str_nat (year d + 1)) = Some (year d + 1)"
      by (rule nat_of_digits_str_nat)
    show "nat_of_digits 0 ''01'' = Some 1"
      by (simp add: digit_val_def less_eq_char_def)
  qed simp_all
  with True show ?thesis by (simp add: next_month_str_def)
next
  case False
  with assms have m: "month d + 1 \<le> 12" by simp
  have "period_of_key (str_nat (year d) @ ''-'' @ zfill 2 (str_nat (month d + 1)))
        = Some (year d, month d + 1)"
  proof (rule period_of_key_build)
    show "\<forall>c\<in>set (str_nat (year d)). c \<noteq> CHR ''-''"
      using str_nat_no_dash by blast
    show "length (str_nat (year d)) = 4"
      using assms(1,2) by (rule length_str_nat_year)
    show "length (zfill 2 (str_nat (month d + 1))) = 2"
      using m by (simp add: length_zfill2)
    show "nat_of_digits 0 (str_nat (year d)) = Some (year d)"
      by (rule nat_of_digits_str_nat)
    show "nat_of_digits 0 (zfill 2 (str_nat (month d + 1))) = Some (month d + 1)"
      by (rule nat_of_digits_zfill)
  qed (use m in auto)
  with False show ?thesis by (simp add: next_month_str_def)
qed

lemma next_month_str_last: "year d = 9999 \<Longrightarrow> month d = 12 \<Longrightarrow> next_month_str d = ''10000-01''"
  by (simp add: next_month_str_def str_nat_big str_nat_small digit_char_def)

text \<open>A key has one spelling: two strings that read as the same period are equal.\<close>

lemma digit_val_lt: "digit_val c = Some v \<Longrightarrow> v < 10"
  by (auto simp: digit_val_def less_eq_char_def split: if_splits)

lemma digit_val_inj: "digit_val c = Some v \<Longrightarrow> digit_val e = Some v \<Longrightarrow> c = e"
proof -
  assume c: "digit_val c = Some v" and e: "digit_val e = Some v"
  from c have "48 \<le> (of_char c :: nat)" "v = of_char c - 48"
    by (auto simp: digit_val_def less_eq_char_def split: if_splits)
  moreover from e have "48 \<le> (of_char e :: nat)" "v = of_char e - 48"
    by (auto simp: digit_val_def less_eq_char_def split: if_splits)
  ultimately have "(of_char c :: nat) = of_char e" by linarith
  then show "c = e" by simp
qed

lemma nat_of_digits_inj:
  "length xs = length ys \<Longrightarrow> nat_of_digits a xs = Some v \<Longrightarrow> nat_of_digits a ys = Some v
     \<Longrightarrow> xs = ys"
proof (induction xs arbitrary: ys v rule: rev_induct)
  case Nil
  then show ?case by simp
next
  case (snoc c xs)
  from snoc.prems(1) obtain e ys' where ys: "ys = ys' @ [e]"
    by (cases ys rule: rev_cases) auto
  from snoc.prems(2) obtain r1 d1 where
    1: "nat_of_digits a xs = Some r1" "digit_val c = Some d1" "v = r1 * 10 + d1"
    by (auto simp: nat_of_digits_snoc split: option.splits)
  from snoc.prems(3) ys obtain r2 d2 where
    2: "nat_of_digits a ys' = Some r2" "digit_val e = Some d2" "v = r2 * 10 + d2"
    by (auto simp: nat_of_digits_snoc split: option.splits)
  from 1(2) 2(2) have "d1 < 10" "d2 < 10" by (auto dest: digit_val_lt)
  with 1(3) 2(3) have eq: "r1 = r2" "d1 = d2" by presburger+
  from snoc.prems(1) ys have "length xs = length ys'" by simp
  with 1(1) 2(1) eq(1) have "xs = ys'" by (intro snoc.IH) auto
  moreover from 1(2) 2(2) eq(2) have "c = e" by (auto dest: digit_val_inj)
  ultimately show ?case using ys by simp
qed

lemma period_of_key_parts:
  assumes "period_of_key s = Some (y, m)"
  shows "\<exists>ys ms. s = ys @ CHR ''-'' # ms \<and> length ys = 4 \<and> length ms = 2
           \<and> nat_of_digits 0 ys = Some y \<and> nat_of_digits 0 ms = Some m"
proof -
  define ys where "ys = takeWhile (\<lambda>c. c \<noteq> CHR ''-'') s"
  define rest where "rest = dropWhile (\<lambda>c. c \<noteq> CHR ''-'') s"
  from assms have l: "length ys = 4" "length rest = 3"
    and v: "nat_of_digits 0 ys = Some y" "nat_of_digits 0 (tl rest) = Some m"
    unfolding ys_def rest_def
    by (auto simp: period_of_key_def Let_def split: if_splits option.splits)
  from l(2) obtain c ms where r: "rest = c # ms" "length ms = 2"
    by (cases rest) auto
  have "rest \<noteq> []" using r(1) by simp
  then have "\<not> hd rest \<noteq> CHR ''-''"
    unfolding rest_def by (rule hd_dropWhile)
  with r(1) have c: "c = CHR ''-''" by simp
  have "s = ys @ rest"
    unfolding ys_def rest_def by (rule takeWhile_dropWhile_id [symmetric])
  then have "s = ys @ CHR ''-'' # ms"
    by (simp only: r(1) c)
  moreover from v(2) have "nat_of_digits 0 ms = Some m"
    by (simp only: r(1) list.sel)
  ultimately show ?thesis using l(1) r(2) v(1) by blast
qed

lemma period_of_key_length: "period_of_key s = Some p \<Longrightarrow> length s = 7"
  using period_of_key_parts [of s "fst p" "snd p"] by auto

lemma period_of_key_inj:
  assumes "period_of_key s = Some p" and "period_of_key t = Some p"
  shows "s = t"
proof -
  obtain y m where p: "p = (y, m)" by (cases p)
  from assms(1) p obtain ys ms where s: "s = ys @ CHR ''-'' # ms" "length ys = 4"
    "length ms = 2" "nat_of_digits 0 ys = Some y" "nat_of_digits 0 ms = Some m"
    using period_of_key_parts by blast
  from assms(2) p obtain ys' ms' where t: "t = ys' @ CHR ''-'' # ms'" "length ys' = 4"
    "length ms' = 2" "nat_of_digits 0 ys' = Some y" "nat_of_digits 0 ms' = Some m"
    using period_of_key_parts by blast
  have "ys = ys'" using s(2,4) t(2,4) by (intro nat_of_digits_inj [of ys ys' 0 y]) auto
  moreover have "ms = ms'" using s(3,5) t(3,5) by (intro nat_of_digits_inj [of ms ms' 0 m]) auto
  ultimately show ?thesis using s(1) t(1) by simp
qed

lemma valid_date_month: "valid_date d \<Longrightarrow> 1 \<le> month d \<and> month d \<le> 12 \<and> year d \<le> 9999"
  by (auto simp: valid_date_def monthrange_days_def split: if_splits)

text \<open>
  Claim C7. For every date the clock can give (a calendar day with a four-digit year),
  \<open>curr_month_str\<close> is the \<^verbatim>\<open>YYYY-MM\<close> key of the date's year and month, and
  \<open>next_month_str\<close> is the \<^verbatim>\<open>YYYY-MM\<close> key of the month after it, December of a
  year going to January of the next year; after December 9999, where the next year has
  five digits, it is \<^verbatim>\<open>10000-01\<close>. A period has one key only (any string that reads as
  the same period is the same string), so both strings are fixed character by character.
  The target planning month is \<open>next_month_str\<close> from day 25 on and \<open>curr_month_str\<close>
  before.
\<close>

theorem period_resolver:
  assumes "valid_date today" and "1000 \<le> year today"
  shows "length (curr_month_str today) = 7
    \<and> period_of_key (curr_month_str today) = Some (year today, month today)
    \<and> (\<not> (year today = 9999 \<and> month today = 12) \<longrightarrow>
          length (next_month_str today) = 7
        \<and> period_of_key (next_month_str today)
            = Some (if month today = 12 then (year today + 1, 1)
                    else (year today, month today + 1)))
    \<and> (year today = 9999 \<and> month today = 12 \<longrightarrow> next_month_str today = ''10000-01'')
    \<and> (\<forall>s p. period_of_key s = Some p \<longrightarrow>
          (period_of_key (curr_month_str today) = Some p \<longrightarrow> s = curr_month_str today)
        \<and> (period_of_key (next_month_str today) = Some p \<longrightarrow> s = next_month_str today))
    \<and> target_plan_month today
        = (if 25 \<le> day today then next_month_str today else curr_month_str today)"
proof -
  note m = valid_date_month [OF assms(1)]
  have c: "period_of_key (curr_month_str today) = Some (year today, month today)"
    using assms(2) m by (intro curr_month_str_key) auto
  have n: "period_of_key (next_month_str today)
            = Some (if month today = 12 then (year today + 1, 1)
                    else (year today, month today + 1))"
    if "\<not> (year today = 9999 \<and> month today = 12)"
    using assms(2) m that by (intro next_month_str_key) auto
  have ln: "length (next_month_str today) = 7"
    if "\<not> (year today = 9999 \<and> month today = 12)"
    using n [OF that] by (rule period_of_key_length)
  have l: "next_month_str today = ''10000-01''" if "year today = 9999 \<and> month today = 12"
    using that by (simp add: next_month_str_last)
  have u: "s = curr_month_str today"
    if "period_of_key s = Some p" "period_of_key (curr_month_str today) = Some p" for s p
    using that by (rule period_of_key_inj)
  have w: "s = next_month_str today"
    if "period_of_key s = Some p" "period_of_key (next_month_str today) = Some p" for s p
    using that by (rule period_of_key_inj)
  have lc: "length (curr_month_str today) = 7"
    using m by (intro length_curr_month_str) auto
  have t: "target_plan_month today
        = (if 25 \<le> day today then next_month_str today else curr_month_str today)"
    by (simp add: target_plan_month_def)
  show ?thesis
  proof (intro conjI impI allI)
    show "length (curr_month_str today) = 7" by (rule lc)
    show "period_of_key (curr_month_str today) = Some (year today, month today)" by (rule c)
    show "length (next_month_str today) = 7"
      if "\<not> (year today = 9999 \<and> month today = 12)"
      using that by (rule ln)
    show "period_of_key (next_month_str today)
            = Some (if month today = 12 then (year today + 1, 1)
                    else (year today, month today + 1))"
      if "\<not> (year today = 9999 \<and> month today = 12)"
      using that by (rule n)
    show "next_month_str today = ''10000-01''" if "year today = 9999 \<and> month today = 12"
      using that by (rule l)
    show "s = curr_month_str today"
      if "period_of_key s = Some p" "period_of_key (curr_month_str today) = Some p" for s p
      using that by (rule u)
    show "s = next_month_str today"
      if "period_of_key s = Some p" "period_of_key (next_month_str today) = Some p" for s p
      using that by (rule w)
    show "target_plan_month today
        = (if 25 \<le> day today then next_month_str today else curr_month_str today)"
      by (rule t)
  qed
qed

theorem period_resolver_witness:
  "valid_date \<lparr>year = 2024, month = 12, day = 25\<rparr>
   \<and> curr_month_str \<lparr>year = 2024, month = 12, day = 25\<rparr> = ''2024-12''
   \<and> next_month_str \<lparr>year = 2024, month = 12, day = 25\<rparr> = ''2025-01''
   \<and> period_of_key ''2024-12'' = Some (2024, 12)
   \<and> period_of_key ''2025-01'' = Some (2025, 1)
   \<and> target_plan_month \<lparr>year = 2024, month = 12, day = 25\<rparr> = ''2025-01''
   \<and> valid_date \<lparr>year = 2025, month = 2, day = 24\<rparr>
   \<and> curr_month_str \<lparr>year = 2025, month = 2, day = 24\<rparr> = ''2025-02''
   \<and> next_month_str \<lparr>year = 2025, month = 2, day = 24\<rparr> = ''2025-03''
   \<and> period_of_key ''2025-02'' = Some (2025, 2)
   \<and> period_of_key ''2025-03'' = Some (2025, 3)
   \<and> target_plan_month \<lparr>year = 2025, month = 2, day = 24\<rparr> = ''2025-02''"
proof -
  let ?d = "\<lparr>year = 2024, month = 12, day = 25\<rparr>"
  let ?e = "\<lparr>year = 2025, month = 2, day = 24\<rparr>"
  have v: "valid_date ?d"
    by (simp add: valid_date_def monthrange_days_def mdays_def isleap_def)
  have y: "1000 \<le> year ?d" by simp
  have c: "curr_month_str ?d = ''2024-12''"
    by (simp add: curr_month_str_def strftime_Y_m_def zfill_def str_nat_big str_nat_small
        digit_char_def)
  have n: "next_month_str ?d = ''2025-01''"
    by (simp add: next_month_str_def zfill_def str_nat_big str_nat_small digit_char_def)
  have v': "valid_date ?e"
    by (simp add: valid_date_def monthrange_days_def mdays_def isleap_def)
  have y': "1000 \<le> year ?e" by simp
  have c': "curr_month_str ?e = ''2025-02''"
    by (simp add: curr_month_str_def strftime_Y_m_def zfill_def str_nat_big str_nat_small
        digit_char_def)
  have n': "next_month_str ?e = ''2025-03''"
    by (simp add: next_month_str_def zfill_def str_nat_big str_nat_small digit_char_def)
  from period_resolver [OF v y] c n
  have 1: "period_of_key ''2024-12'' = Some (2024, 12)"
    "period_of_key ''2025-01'' = Some (2025, 1)"
    "target_plan_month ?d = ''2025-01''"
    by simp_all
  from period_resolver [OF v' y'] c' n'
  have 2: "period_of_key ''2025-02'' = Some (2025, 2)"
    "period_of_key ''2025-03'' = Some (2025, 3)"
    "target_plan_month ?e = ''2025-02''"
    by simp_all
  show ?thesis
    by (intro conjI) (rule v c n 1 v' c' n' 2)+
qed

subsection \<open>Income reminder\<close>

lemma income_exists_iff:
  "income_exists df_inc target = (\<exists>r\<in>set df_inc. inc_Month_Year r = target)"
  by (auto simp: income_exists_def Let_def filter_empty_conv)

text \<open>
  Claim C3, as stated, fails. With one stored income row of amount 0 for the target
  period and no dismissal, the resolved income is 0 and the flag is not set, yet the
  prompt is not shown: the script tests whether a row exists, not what it holds.
\<close>

theorem reminder_zero_income_counterexample:
  "curr_sal [\<lparr>inc_Month_Year = ''2025-01'', inc_Amount = 0, inc_Source = ''Salary'',
              inc_Date_Added = ''2025-01-02''\<rparr>] ''2025-01'' = 0
   \<and> \<not> session_get [] ''skip_prompt'' False
   \<and> \<not> show_prompt [\<lparr>inc_Month_Year = ''2025-01'', inc_Amount = 0, inc_Source = ''Salary'',
              inc_Date_Added = ''2025-01-02''\<rparr>] ''2025-01'' []"
  by (simp add: curr_sal_def show_prompt_def income_exists_def session_get_def)

text \<open>
  Claim C3, amended. The prompt is shown if and only if no income row is stored for the
  target period and the session's dismissal flag is not set; whenever it is shown the
  resolved income of the target period is 0, but not conversely.
\<close>

theorem reminder_decision:
  "show_prompt df_inc target session_state
     = ((\<forall>r\<in>set df_inc. inc_Month_Year r \<noteq> target)
        \<and> \<not> session_get session_state ''skip_prompt'' False)
   \<and> (show_prompt df_inc target session_state \<longrightarrow> curr_sal df_inc target = 0)"
proof -
  have "curr_sal df_inc target = 0" if "show_prompt df_inc target session_state"
    using that by (intro curr_sal_none) (simp add: show_prompt_def income_exists_iff)
  then show ?thesis
    by (auto simp: show_prompt_def income_exists_iff)
qed

theorem reminder_decision_witness:
  "show_prompt [\<lparr>inc_Month_Year = ''2024-12'', inc_Amount = 100, inc_Source = ''Salary'',
              inc_Date_Added = ''2024-12-02''\<rparr>] ''2025-01'' []
   \<and> \<not> show_prompt [\<lparr>inc_Month_Year = ''2024-12'', inc_Amount = 100, inc_Source = ''Salary'',
              inc_Date_Added = ''2024-12-02''\<rparr>] ''2025-01'' [(''skip_prompt'', True)]"
  using reminder_decision [of "[\<lparr>inc_Month_Year = ''2024-12'', inc_Amount = 100,
      inc_Source = ''Salary'', inc_Date_Added = ''2024-12-02''\<rparr>]" "''2025-01''" "[]"]
    reminder_decision [of "[\<lparr>inc_Month_Year = ''2024-12'', inc_Amount = 100,
      inc_Source = ''Salary'', inc_Date_Added = ''2024-12-02''\<rparr>]" "''2025-01''"
      "[(''skip_prompt'', True)]"]
  by (simp add: session_get_def)

subsection \<open>Projection\<close>

text \<open>
  Claim C6. The projection always returns an amount, never the outcome of a division by
  zero: \<open>spent / days_passed * days_in_month\<close> when \<open>days_passed\<close> is positive, and 0
  when it is 0 (where the division itself has no result), so the division is guarded.
  The projection of 0 on day 0 of a 30-day month is 0, and 300 spent in 10 days of a
  30-day month projects to 900.
\<close>

theorem project_month_end_guarded:
  "(0 < days_passed \<longrightarrow>
      projected spent days_passed days_in_month
        = Inr (spent / real_of_int days_passed * real_of_int days_in_month))
   \<and> (days_passed = 0 \<longrightarrow>
        projected spent days_passed days_in_month = Inr 0
      \<and> truediv spent days_passed = Inl ZeroDivision)
   \<and> (\<exists>amount. projected spent days_passed days_in_month = Inr amount)
   \<and> projected 0 0 30 = Inr 0
   \<and> projected 300 10 30 = Inr 900"
  by (simp add: projected_def truediv_def)

theorem project_month_end_guarded_witness:
  "projected 450 15 30 = Inr 900 \<and> projected 450 0 30 = Inr 0
   \<and> truediv 450 0 = Inl ZeroDivision"
  using project_month_end_guarded [of 15 450 30] project_month_end_guarded [of 0 450 30]
  by simp

subsection \<open>Add Allocation\<close>

text \<open>
  Claim C10. Submitting the Add Allocation form with amount 0 leaves the CategoryBudgets
  sheet as it was and triggers no rerun; the sheet changes exactly when the form is
  submitted with a strictly positive amount, and then by one appended row.
\<close>

theorem add_allocation_needs_positive_amount:
  "add_cat_budget True plan_month_opt cat_input 0 today sheet_cat_bud = (sheet_cat_bud, False)
   \<and> (fst (add_cat_budget submitted plan_month_opt cat_input amt_input today sheet_cat_bud)
         \<noteq> sheet_cat_bud \<longleftrightarrow> submitted \<and> 0 < amt_input)
   \<and> (submitted \<and> 0 < amt_input \<longrightarrow>
        fst (add_cat_budget submitted plan_month_opt cat_input amt_input today sheet_cat_bud)
          = sheet_cat_bud @ [\<lparr>bud_Month_Year = plan_month_opt, bud_Category = cat_input,
               bud_Planned_Amount = amt_input, bud_Date_Added = strftime_Y_m_d today\<rparr>])"
  by (simp add: add_cat_budget_def)

theorem add_allocation_needs_positive_amount_witness:
  "fst (add_cat_budget True ''2025-01'' ''Rent'' 100 \<lparr>year = 2025, month = 1, day = 3\<rparr> [])
     = [\<lparr>bud_Month_Year = ''2025-01'', bud_Category = ''Rent'', bud_Planned_Amount = 100,
         bud_Date_Added = ''2025-01-03''\<rparr>]
   \<and> add_cat_budget True ''2025-01'' ''Rent'' 0 \<lparr>year = 2025, month = 1, day = 3\<rparr> []
     = ([], False)"
proof -
  have d: "strftime_Y_m_d \<lparr>year = 2025, month = 1, day = 3\<rparr> = ''2025-01-03''"
    by (simp add: strftime_Y_m_d_def strftime_Y_m_def zfill_def str_nat_big str_nat_small
        digit_char_def)
  show ?thesis
    using d add_allocation_needs_positive_amount
      [of "''2025-01''" "''Rent''" "\<lparr>year = 2025, month = 1, day = 3\<rparr>" "[]" True 100]
    by simp
qed

subsection \<open>Loading expenses\<close>

lemma dropna_Date_concat:
  "dropna_Date rs =
     concat (map (\<lambda>r. case co_Date r of
          None \<Rightarrow> []
        | Some d \<Rightarrow> [\<lparr>exp_Date = d, exp_Category = co_Category r,
                       exp_Description = co_Description r, exp_Amount = co_Amount r\<rparr>]) rs)"
  by (induction rs) (auto split: option.splits)

text \<open>
  Claim C9, as stated, fails. A row whose amount does not parse is not always kept: when
  its date does not parse either, the row is dropped with the other undated rows.
\<close>

theorem load_expenses_both_malformed_counterexample:
  "load_df_exp [\<lparr>raw_Date = Unparseable ''soon'', raw_Category = ''Rent'',
                 raw_Description = ''flat'', raw_Amount = Unparseable ''abc''\<rparr>] = []"
  by (simp add: load_df_exp_def to_datetime_to_numeric_def)

text \<open>
  Claim C9, amended. Loading never fails. Every row whose date parses is kept, in order,
  with its amount, or with amount 0 when the amount does not parse; every row whose date
  does not parse is dropped from the frame, whatever its amount, and so from every
  aggregation.
\<close>

theorem load_expenses_coercion:
  "load_df_exp records =
     concat (map (\<lambda>r. case raw_Date r of
          Unparseable s \<Rightarrow> []
        | Parses d \<Rightarrow>
            [\<lparr>exp_Date = d, exp_Category = raw_Category r,
              exp_Description = raw_Description r,
              exp_Amount = (case raw_Amount r of Parses a \<Rightarrow> a | Unparseable s \<Rightarrow> 0)\<rparr>])
        records)"
proof -
  have row: "(case co_Date (to_datetime_to_numeric r) of
          None \<Rightarrow> []
        | Some d \<Rightarrow> [\<lparr>exp_Date = d, exp_Category = co_Category (to_datetime_to_numeric r),
                       exp_Description = co_Description (to_datetime_to_numeric r),
                       exp_Amount = co_Amount (to_datetime_to_numeric r)\<rparr>])
      = (case raw_Date r of
          Unparseable s \<Rightarrow> []
        | Parses d \<Rightarrow>
            [\<lparr>exp_Date = d, exp_Category = raw_Category r,
              exp_Description = raw_Description r,
              exp_Amount = (case raw_Amount r of Parses a \<Rightarrow> a | Unparseable s \<Rightarrow> 0)\<rparr>])"
    for r
    by (cases "raw_Date r"; cases "raw_Amount r")
       (simp_all add: to_datetime_to_numeric_def fillna_def)
  show ?thesis
    by (cases "records = []")
       (simp_all add: load_df_exp_def dropna_Date_concat comp_def row)
qed

subsection \<open>Previous month\<close>

text \<open>
  Claim C2 at a failing input. On 2025-01-15 the day before the first of the month is
  2024-12-31, month 12; with a single expense dated 2023-12-10 the previous frame holds
  that expense, the previous total is 100 and the previous per-category sums are
  Rent 100, although no expense is dated December 2024. The current frame is filtered on
  month and year, the previous one on the month only.
\<close>

theorem prev_month_ignores_year:
  "last_month_date \<lparr>year = 2025, month = 1, day = 15\<rparr>
     = Some \<lparr>year = 2024, month = 12, day = 31\<rparr>
   \<and> prev_df [\<lparr>exp_Date = \<lparr>year = 2023, month = 12, day = 10\<rparr>, exp_Category = ''Rent'',
                exp_Description = ''flat'', exp_Amount = 100\<rparr>]
        \<lparr>year = 2025, month = 1, day = 15\<rparr>
     = Some [\<lparr>exp_Date = \<lparr>year = 2023, month = 12, day = 10\<rparr>, exp_Category = ''Rent'',
                exp_Description = ''flat'', exp_Amount = 100\<rparr>]
   \<and> p_total [\<lparr>exp_Date = \<lparr>year = 2023, month = 12, day = 10\<rparr>, exp_Category = ''Rent'',
                exp_Description = ''flat'', exp_Amount = 100\<rparr>]
        \<lparr>year = 2025, month = 1, day = 15\<rparr> = Some 100
   \<and> p_cat [\<lparr>exp_Date = \<lparr>year = 2023, month = 12, day = 10\<rparr>, exp_Category = ''Rent'',
                exp_Description = ''flat'', exp_Amount = 100\<rparr>]
        \<lparr>year = 2025, month = 1, day = 15\<rparr> = Some [(''Rent'', 100)]"
  by (simp add: last_month_date_def minus_one_day_def prev_df_def prev_month_idx_def
      p_total_def p_cat_def total_spent_def actual_grp_def groupby_sum_def)

subsection \<open>Planner balance\<close>

text \<open>
  Claim C8 at a failing input. With a stored income of 1000 for 2025-01, one allocation
  of 200 and 5000 held by the income form, the balance is 4800 and not 1000 - 200.
\<close>

theorem balance_uses_form_field:
  "curr_sal [\<lparr>inc_Month_Year = ''2025-01'', inc_Amount = 1000, inc_Source = ''Salary'',
              inc_Date_Added = ''2025-01-02''\<rparr>] ''2025-01'' = 1000
   \<and> total_alloc [\<lparr>bud_Month_Year = ''2025-01'', bud_Category = ''Rent'',
              bud_Planned_Amount = 200, bud_Date_Added = ''2025-01-02''\<rparr>] ''2025-01'' = 200
   \<and> balance [\<lparr>inc_Month_Year = ''2025-01'', inc_Amount = 1000, inc_Source = ''Salary'',
              inc_Date_Added = ''2025-01-02''\<rparr>]
        [\<lparr>bud_Month_Year = ''2025-01'', bud_Category = ''Rent'',
              bud_Planned_Amount = 200, bud_Date_Added = ''2025-01-02''\<rparr>] ''2025-01''
        (Some 5000) = Some 4800"
  by (simp add: curr_sal_def total_alloc_def plan_df_def display_df_def groupby_sum_def
      balance_def new_salary_def number_input_def)

subsection \<open>Grouping\<close>

lemma map_of_tabulate:
  "map_of (map (\<lambda>k. (k, f k)) ks) k = (if k \<in> set ks then Some (f k) else None)"
  by (induction ks) auto

lemma map_of_groupby_sum:
  "map_of (groupby_sum kvs) k =
     (if k \<in> fst ` set kvs then Some (sum_list (map snd (filter (\<lambda>kv. fst kv = k) kvs)))
      else None)"
  unfolding groupby_sum_def map_of_tabulate by simp

lemma keys_groupby_sum: "map fst (groupby_sum kvs) = sort (remdups (map fst kvs))"
  by (simp add: groupby_sum_def comp_def)

lemma distinct_groupby_sum: "distinct (map fst (groupby_sum kvs))"
  by (simp add: keys_groupby_sum)

lemma sorted_groupby_sum: "sorted (map fst (groupby_sum kvs))"
  by (simp add: keys_groupby_sum)

lemma group_of_column:
  "map snd (filter (\<lambda>kv. fst kv = c) (map (\<lambda>r. (key r, val r)) rows))
     = map val (filter (\<lambda>r. key r = c) rows)"
  by (induction rows) auto

lemma curr_plan_lookup:
  "map_of (curr_plan df_cat_bud period) c =
     (if \<exists>r\<in>set df_cat_bud. bud_Month_Year r = period \<and> bud_Category r = c
      then Some (sum_list (map bud_Planned_Amount
             (filter (\<lambda>r. bud_Month_Year r = period \<and> bud_Category r = c) df_cat_bud)))
      else None)"
proof (cases "df_cat_bud = []")
  case True
  then show ?thesis by (simp add: curr_plan_def)
next
  case False
  have f: "filter (\<lambda>r. bud_Category r = c) (filter (\<lambda>r. bud_Month_Year r = period) df_cat_bud)
           = filter (\<lambda>r. bud_Month_Year r = period \<and> bud_Category r = c) df_cat_bud"
    by (simp add: conj_commute)
  have k: "(c \<in> fst ` set (map (\<lambda>r. (bud_Category r, bud_Planned_Amount r))
                (filter (\<lambda>r. bud_Month_Year r = period) df_cat_bud)))
           = (\<exists>r\<in>set df_cat_bud. bud_Month_Year r = period \<and> bud_Category r = c)"
    by force
  from False have "curr_plan df_cat_bud period
      = groupby_sum (map (\<lambda>r. (bud_Category r, bud_Planned_Amount r))
          (filter (\<lambda>r. bud_Month_Year r = period) df_cat_bud))"
    by (simp add: curr_plan_def Let_def)
  then show ?thesis
    by (simp only: map_of_groupby_sum group_of_column f k)
qed

lemma display_df_plan_df: "display_df (plan_df df_cat_bud period) = curr_plan df_cat_bud period"
  by (simp add: display_df_def plan_df_def curr_plan_def groupby_sum_def Let_def)

text \<open>
  Claim C5. For every period and category, the planned budget of the category is the sum
  of the planned amounts of all rows of that period and category, and the category is
  absent when there is no such row; each category has one row of the result. The Budget
  Planner's table is computed the same way. Rows of 200 and 300 for Groceries in 2024-05
  give 500.
\<close>

theorem planned_budget_sums_duplicates:
  "map_of (curr_plan df_cat_bud period) c =
     (if \<exists>r\<in>set df_cat_bud. bud_Month_Year r = period \<and> bud_Category r = c
      then Some (sum_list (map bud_Planned_Amount
             (filter (\<lambda>r. bud_Month_Year r = period \<and> bud_Category r = c) df_cat_bud)))
      else None)
   \<and> distinct (map fst (curr_plan df_cat_bud period))
   \<and> display_df (plan_df df_cat_bud period) = curr_plan df_cat_bud period"
proof -
  have "distinct (map fst (curr_plan df_cat_bud period))"
    by (simp add: curr_plan_def distinct_groupby_sum)
  then show ?thesis
    using curr_plan_lookup display_df_plan_df by simp
qed

theorem planned_budget_sums_duplicates_witness:
  "map_of (curr_plan
      [\<lparr>bud_Month_Year = ''2024-05'', bud_Category = ''Groceries'', bud_Planned_Amount = 200,
         bud_Date_Added = ''2024-05-01''\<rparr>,
       \<lparr>bud_Month_Year = ''2024-05'', bud_Category = ''Groceries'', bud_Planned_Amount = 300,
         bud_Date_Added = ''2024-05-02''\<rparr>] ''2024-05'') ''Groceries'' = Some 500"
  using planned_budget_sums_duplicates
    [of "[\<lparr>bud_Month_Year = ''2024-05'', bud_Category = ''Groceries'', bud_Planned_Amount = 200,
           bud_Date_Added = ''2024-05-01''\<rparr>,
         \<lparr>bud_Month_Year = ''2024-05'', bud_Category = ''Groceries'', bud_Planned_Amount = 300,
           bud_Date_Added = ''2024-05-02''\<rparr>]" "''2024-05''" "''Groceries''"]
  by simp

subsection \<open>Plan against reality\<close>

lemma filter_key_distinct:
  "distinct (map fst xs) \<Longrightarrow>
     filter (\<lambda>kv. fst kv = k) xs = (case map_of xs k of None \<Rightarrow> [] | Some v \<Rightarrow> [(k, v)])"
proof (induction xs)
  case Nil
  then show ?case by simp
next
  case (Cons x xs)
  obtain a b where x: "x = (a, b)" by (cases x)
  show ?case
  proof (cases "a = k")
    case True
    with Cons.prems x have "k \<notin> fst ` set xs" by auto
    then have "map_of xs k = None" "filter (\<lambda>kv. fst kv = k) xs = []"
      by (auto simp: map_of_eq_None_iff filter_empty_conv)
    with True x show ?thesis by simp
  next
    case False
    with Cons x show ?thesis by simp
  qed
qed

lemma join_left_rows:
  assumes "distinct (map fst right)"
  shows "concat (map (\<lambda>(k, p).
            (case filter (\<lambda>kv. fst kv = k) right of
               [] \<Rightarrow> [(k, Some p, None)]
             | ms \<Rightarrow> map (\<lambda>(k', a). (k, Some p, Some a)) ms)) left)
         = map (\<lambda>(k, p). (k, Some p, map_of right k)) left"
proof (induction left)
  case Nil
  then show ?case by simp
next
  case (Cons x left)
  obtain k p where x: "x = (k, p)" by (cases x)
  have "(case filter (\<lambda>kv. fst kv = k) right of
               [] \<Rightarrow> [(k, Some p, None)]
             | ms \<Rightarrow> map (\<lambda>(k', a). (k, Some p, Some a)) ms)
        = [(k, Some p, map_of right k)]"
    by (simp add: filter_key_distinct [OF assms] split: option.splits)
  with Cons.IH x show ?case by simp
qed

lemma merge_outer_set:
  assumes "distinct (map fst right)"
  shows "set (merge_outer left right)
         = (\<lambda>(k, p). (k, Some p, map_of right k)) ` set left
           \<union> (\<lambda>(k, a). (k, None, Some a)) ` {kv \<in> set right. fst kv \<notin> fst ` set left}"
  unfolding merge_outer_def join_left_rows [OF assms] by simp

lemma merge_outer_row:
  assumes "distinct (map fst left)" and "distinct (map fst right)"
    and "(k, x, y) \<in> set (merge_outer left right)"
  shows "x = map_of left k \<and> y = map_of right k"
proof -
  from assms(3) consider
      p where "(k, p) \<in> set left" "x = Some p" "y = map_of right k"
    | a where "(k, a) \<in> set right" "k \<notin> fst ` set left" "x = None" "y = Some a"
    unfolding merge_outer_set [OF assms(2)] by auto
  then show ?thesis
  proof cases
    case 1
    with assms(1) show ?thesis by simp
  next
    case 2
    from 2(2) have "map_of left k = None" by (simp add: map_of_eq_None_iff)
    moreover from 2(1) assms(2) have "map_of right k = Some a" by simp
    ultimately show ?thesis using 2(3,4) by simp
  qed
qed

lemma merge_outer_keys:
  assumes "distinct (map fst right)"
  shows "fst ` set (merge_outer left right) = fst ` set left \<union> fst ` set right"
proof -
  have l: "fst ` ((\<lambda>(k, p). (k, Some p, map_of right k)) ` set left) = fst ` set left"
    by (simp add: image_image case_prod_unfold)
  have r: "fst ` ((\<lambda>(k, a). (k, None :: real option, Some a)) ` S) = fst ` S" for S
    by (simp add: image_image case_prod_unfold)
  have "fst ` set left \<union> fst ` {kv \<in> set right. fst kv \<notin> fst ` set left}
        = fst ` set left \<union> fst ` set right"
    by blast
  then show ?thesis
    unfolding merge_outer_set [OF assms] image_Un l r .
qed

lemma distinct_map_sort_key: "distinct (map f (sort_key f xs)) = distinct (map f xs)"
  by (induction xs) (simp_all add: distinct_insort_key)

lemma merge_outer_distinct:
  assumes "distinct (map fst left)" and "distinct (map fst right)"
  shows "distinct (map fst (merge_outer left right))"
proof -
  have l: "map fst (map (\<lambda>(k, p). (k, Some p, map_of right k)) left) = map fst left"
    by (induction left) auto
  have r: "map fst (map (\<lambda>(k, a). (k, None :: real option, Some a)) zs) = map fst zs" for zs
    by (induction zs) auto
  have "distinct (map fst (filter (\<lambda>kv. fst kv \<notin> set (map fst left)) right))"
    using assms(2) by (rule distinct_map_filter)
  moreover have "set (map fst left)
      \<inter> set (map fst (filter (\<lambda>kv. fst kv \<notin> set (map fst left)) right)) = {}"
    by force
  ultimately show ?thesis
    unfolding merge_outer_def join_left_rows [OF assms(2)] distinct_map_sort_key
    using assms(1) by (simp only: map_append l r distinct_append)
qed

lemma merged_with_plan:
  "plan \<noteq> [] \<Longrightarrow>
     merged plan actual
       = map (\<lambda>(c, p, a). over_budget_flag (c, fillna 0 p, fillna 0 a)) (merge_outer plan actual)"
  by (simp add: merged_def comp_def case_prod_unfold)

lemma merged_without_plan:
  "merged [] actual = map (\<lambda>(c, a). over_budget_flag (c, 0, a)) actual"
  by (simp add: merged_def comp_def case_prod_unfold)

lemma merged_categories:
  "map mg_Category (merged plan actual)
     = (if plan \<noteq> [] then map fst (merge_outer plan actual) else map fst actual)"
  by (cases "plan = []")
     (simp_all add: merged_with_plan merged_without_plan over_budget_flag_def comp_def
        case_prod_unfold)

lemma merged_row:
  assumes "distinct (map fst plan)" and "distinct (map fst actual)"
    and "r \<in> set (merged plan actual)"
  shows "mg_Planned r = fillna 0 (map_of plan (mg_Category r))
       \<and> mg_Actual r = fillna 0 (map_of actual (mg_Category r))
       \<and> mg_Is_Over_Budget r = (mg_Actual r > mg_Planned r)"
proof (cases "plan = []")
  case True
  with assms(3) obtain c a where "(c, a) \<in> set actual" "r = over_budget_flag (c, 0, a)"
    by (auto simp: merged_without_plan)
  with assms(2) True show ?thesis
    by (simp add: over_budget_flag_def fillna_def)
next
  case False
  with assms(3) obtain c x y where m: "(c, x, y) \<in> set (merge_outer plan actual)"
    and r: "r = over_budget_flag (c, fillna 0 x, fillna 0 y)"
    by (auto simp: merged_with_plan)
  from merge_outer_row [OF assms(1,2) m] r show ?thesis
    by (simp add: over_budget_flag_def)
qed

text \<open>
  Claim C4. For every planned mapping and actual mapping (one entry per category, as
  \<open>groupby_sum\<close> yields them, see \<open>distinct_groupby_sum\<close>), the merged frame has
  exactly the categories of either side, one row each; a row's planned and actual
  values are those of the two mappings, 0 where the category is missing from one, and
  its over-budget flag is true exactly when actual is strictly greater than planned.
\<close>

theorem merge_plan_actual_outer_join:
  assumes "distinct (map fst plan)" and "distinct (map fst actual)"
  shows "set (map mg_Category (merged plan actual)) = fst ` set plan \<union> fst ` set actual
    \<and> distinct (map mg_Category (merged plan actual))
    \<and> (\<forall>r\<in>set (merged plan actual).
          mg_Planned r = (case map_of plan (mg_Category r) of None \<Rightarrow> 0 | Some p \<Rightarrow> p)
        \<and> mg_Actual r = (case map_of actual (mg_Category r) of None \<Rightarrow> 0 | Some a \<Rightarrow> a)
        \<and> mg_Is_Over_Budget r = (mg_Actual r > mg_Planned r))"
proof (intro conjI ballI)
  show "set (map mg_Category (merged plan actual)) = fst ` set plan \<union> fst ` set actual"
    using merge_outer_keys [OF assms(2), of plan]
    by (cases "plan = []") (simp_all add: merged_categories)
  show "distinct (map mg_Category (merged plan actual))"
    using merge_outer_distinct [OF assms] assms(2)
    by (simp add: merged_categories)
next
  fix r assume r: "r \<in> set (merged plan actual)"
  note m = merged_row [OF assms r]
  from m show "mg_Planned r = (case map_of plan (mg_Category r) of None \<Rightarrow> 0 | Some p \<Rightarrow> p)"
    by (simp add: fillna_def)
  from m show "mg_Actual r = (case map_of actual (mg_Category r) of None \<Rightarrow> 0 | Some a \<Rightarrow> a)"
    by (simp add: fillna_def)
  from m show "mg_Is_Over_Budget r = (mg_Actual r > mg_Planned r)" by simp
qed

theorem merge_plan_actual_outer_join_witness:
  "distinct (map fst [(''Rent'', 100::real)])
   \<and> distinct (map fst [(''Food'', 30::real), (''Rent'', 120)])
   \<and> merged [(''Rent'', 100)] [(''Food'', 30), (''Rent'', 120)]
       = [\<lparr>mg_Category = ''Food'', mg_Planned = 0, mg_Actual = 30, mg_Is_Over_Budget = True\<rparr>,
          \<lparr>mg_Category = ''Rent'', mg_Planned = 100, mg_Actual = 120,
            mg_Is_Over_Budget = True\<rparr>]
   \<and> set (map mg_Category (merged [(''Rent'', 100)] [(''Food'', 30), (''Rent'', 120)]))
       = fst ` set [(''Rent'', 100::real)] \<union> fst ` set [(''Food'', 30::real), (''Rent'', 120)]
   \<and> distinct (map mg_Category (merged [(''Rent'', 100)] [(''Food'', 30), (''Rent'', 120)]))"
proof -
  have p: "distinct (map fst [(''Rent'', 100::real)])" by simp
  have a: "distinct (map fst [(''Food'', 30::real), (''Rent'', 120)])" by simp
  have m: "merged [(''Rent'', 100)] [(''Food'', 30), (''Rent'', 120)]
       = [\<lparr>mg_Category = ''Food'', mg_Planned = 0, mg_Actual = 30, mg_Is_Over_Budget = True\<rparr>,
          \<lparr>mg_Category = ''Rent'', mg_Planned = 100, mg_Actual = 120,
            mg_Is_Over_Budget = True\<rparr>]"
    by (simp add: merged_def merge_outer_def over_budget_flag_def fillna_def)
  note t = merge_plan_actual_outer_join [OF p a]
  from t have k: "set (map mg_Category (merged [(''Rent'', 100)] [(''Food'', 30), (''Rent'', 120)]))
       = fst ` set [(''Rent'', 100::real)] \<union> fst ` set [(''Food'', 30::real), (''Rent'', 120)]"
    by (rule conjunct1)
  from t have d: "distinct (map mg_Category (merged [(''Rent'', 100)] [(''Food'', 30), (''Rent'', 120)]))"
    by (elim conjE)
  show ?thesis
    by (intro conjI) (rule p a m k d)+
qed

end
